theory Spec2Isabelle
  imports Main "HOL-Library.Word"
begin

section \<open>Channels, errors and panics\<close>

text \<open>
  The three error values of \<^verbatim>\<open>conn.go\<close> (lines 17-21).
\<close>

datatype error = ErrConnClosing | ErrWriteBlocking | ErrReadBlocking

text \<open>
  The run-time panics that the code can meet: closing a channel that is closed already,
  sending on a closed channel, and calling a method of a \<^verbatim>\<open>nil\<close> packet.
\<close>

datatype panic = CloseOfClosedChannel | SendOnClosedChannel | NilDereference

text \<open>
  A Go channel made by \<^verbatim>\<open>make(chan T, n)\<close>: the buffered values in order of arrival,
  the capacity, and whether \<^verbatim>\<open>close\<close> has been called on it.
\<close>

record 'a chan =
  ch_buf :: "'a list"
  ch_cap :: nat
  ch_closed :: bool

definition make_chan :: "nat \<Rightarrow> 'a chan" where
  "make_chan n = \<lparr>ch_buf = [], ch_cap = n, ch_closed = False\<rparr>"

text \<open>\<^verbatim>\<open>close(ch)\<close>: panics on a closed channel.\<close>

definition close_chan :: "'a chan \<Rightarrow> panic + 'a chan" where
  "close_chan ch =
     (if ch_closed ch then Inl CloseOfClosedChannel else Inr (ch\<lparr>ch_closed := True\<rparr>))"

text \<open>
  A send \<^verbatim>\<open>ch <- v\<close> with no receiver parked on the channel: it panics on a closed
  channel, goes into the buffer when there is room, and cannot proceed otherwise.
\<close>

datatype 'a send_result = SendPanics | SendOk "'a chan" | SendBlocks

definition chan_send :: "'a chan \<Rightarrow> 'a \<Rightarrow> 'a send_result" where
  "chan_send ch v =
     (if ch_closed ch then SendPanics
      else if length (ch_buf ch) < ch_cap ch then SendOk (ch\<lparr>ch_buf := ch_buf ch @ [v]\<rparr>)
      else SendBlocks)"

section \<open>Server and connection state\<close>

text \<open>\<^verbatim>\<open>Config\<close> of \<^verbatim>\<open>server.go\<close>: two \<^verbatim>\<open>uint32\<close> limits.\<close>

record Config =
  PacketSendChanLimit :: "32 word"
  PacketReceiveChanLimit :: "32 word"

text \<open>
  The goroutines that act on one connection: the one that \<^verbatim>\<open>Start\<close> spawns to run
  \<^verbatim>\<open>Do\<close>, the three that \<^verbatim>\<open>Do\<close> spawns for \<^verbatim>\<open>handleLoop\<close>, \<^verbatim>\<open>readLoop\<close> and
  \<^verbatim>\<open>writeLoop\<close>, and the application calling \<^verbatim>\<open>Close\<close> and \<^verbatim>\<open>AsyncWritePacket\<close>.

  What the code does that is visible from outside a connection, in the order it happens:
  the statements of the body of \<^verbatim>\<open>Close\<close>, the three hooks of \<^verbatim>\<open>ConnCallback\<close>
  with what they returned, the calls of the protocol and of the socket (\<open>None\<close> is a
  \<^verbatim>\<open>nil\<close> packet for a hook and an error for \<^verbatim>\<open>ReadPacket\<close>), what a call of
  \<^verbatim>\<open>AsyncWritePacket\<close> by the application returned, and the calls of \<^verbatim>\<open>writeLog\<close>.
  The text of a log line (it formats the connection's extra data and remote address) is
  not modelled, only the call site and the error it reports.
\<close>

datatype goroutine = Doer | Handler | Reader | Writer | Caller

datatype logline =
    LogAsyncWritePanic panic
  | LogAsyncWriteBlocking
  | LogLoopPanic goroutine panic
  | LogLoopExit goroutine
  | LogReadPacketErr
  | LogWriteErr

datatype 'p event =
    StoreCloseFlag
  | CloseCloseChan
  | CloseSendChan
  | CloseReceiveChan
  | SockClose
  | OnClose
  | OnConnect bool
  | OnMessage "'p option" bool
  | ReadPacket "'p option"
  | SockWrite 'p bool
  | AsyncWriteReturns "error option"
  | WriteLog logline

text \<open>
  \<^verbatim>\<open>Conn\<close> (lines 24-33). \<open>rawClosed\<close> is the state of the raw socket \<^verbatim>\<open>conn\<close>
  (whether its \<^verbatim>\<open>Close\<close> has been called), \<open>closeOnce\<close> is the \<^verbatim>\<open>done\<close> flag of
  the \<^verbatim>\<open>sync.Once\<close>, \<open>closeFlag\<close> is the \<^verbatim>\<open>int32\<close>. The back reference \<^verbatim>\<open>srv\<close> is
  passed to the functions that use it, and \<^verbatim>\<open>extraData\<close>, which only its accessors and
  the text of log lines read, is left out. \<open>history\<close> records the events above.
\<close>

record 'p Conn =
  rawClosed :: bool
  closeOnce :: bool
  closeFlag :: "32 word"
  closeChan :: "unit chan"
  packetSendChan :: "'p chan"
  packetReceiveChan :: "'p chan"
  history :: "'p event list"

definition newConn :: "Config \<Rightarrow> 'p Conn" where
  "newConn config =
     \<lparr>rawClosed = False, closeOnce = False, closeFlag = 0,
      closeChan = make_chan 0,
      packetSendChan = make_chan (unat (PacketSendChanLimit config)),
      packetReceiveChan = make_chan (unat (PacketReceiveChanLimit config)),
      history = []\<rparr>"

definition emit :: "'p event \<Rightarrow> 'p Conn \<Rightarrow> 'p Conn" where
  "emit e c = c\<lparr>history := history c @ [e]\<rparr>"

section \<open>Close\<close>

text \<open>
  The six statements of the function literal that \<^verbatim>\<open>Close\<close> hands to
  \<^verbatim>\<open>closeOnce.Do\<close> (lines 78-83), numbered from 0. Each \<^verbatim>\<open>close\<close> of a channel can
  panic; \<^verbatim>\<open>c.conn.Close()\<close> returns an error that the code drops.
\<close>

fun close_stmt :: "nat \<Rightarrow> 'p Conn \<Rightarrow> panic + 'p Conn" where
  "close_stmt 0 c = Inr (emit StoreCloseFlag (c\<lparr>closeFlag := 1\<rparr>))"
| "close_stmt (Suc 0) c =
     (case close_chan (closeChan c) of
        Inl e \<Rightarrow> Inl e
      | Inr ch \<Rightarrow> Inr (emit CloseCloseChan (c\<lparr>closeChan := ch\<rparr>)))"
| "close_stmt (Suc (Suc 0)) c =
     (case close_chan (packetSendChan c) of
        Inl e \<Rightarrow> Inl e
      | Inr ch \<Rightarrow> Inr (emit CloseSendChan (c\<lparr>packetSendChan := ch\<rparr>)))"
| "close_stmt (Suc (Suc (Suc 0))) c =
     (case close_chan (packetReceiveChan c) of
        Inl e \<Rightarrow> Inl e
      | Inr ch \<Rightarrow> Inr (emit CloseReceiveChan (c\<lparr>packetReceiveChan := ch\<rparr>)))"
| "close_stmt (Suc (Suc (Suc (Suc 0)))) c = Inr (emit SockClose (c\<lparr>rawClosed := True\<rparr>))"
| "close_stmt (Suc (Suc (Suc (Suc (Suc n))))) c = Inr (emit OnClose c)"

text \<open>The body run from statement \<open>k\<close> to its end; a panic ends it.\<close>

function close_from :: "nat \<Rightarrow> 'p Conn \<Rightarrow> panic + 'p Conn" where
  "close_from k c =
     (if 6 \<le> k then Inr c
      else case close_stmt k c of Inl e \<Rightarrow> Inl e | Inr c' \<Rightarrow> close_from (Suc k) c')"
  by pat_completeness auto
termination
  by (relation "measure (\<lambda>(k, c). 6 - k)") auto

text \<open>
  \<^verbatim>\<open>Close\<close> (lines 76-85) called by one caller at a time: \<^verbatim>\<open>sync.Once\<close> runs the body
  when it has not run yet and marks itself done when the body returns.
\<close>

definition Close :: "'p Conn \<Rightarrow> panic + 'p Conn" where
  "Close c =
     (if closeOnce c then Inr c
      else case close_from 0 c of Inl e \<Rightarrow> Inl e | Inr c' \<Rightarrow> Inr (c'\<lparr>closeOnce := True\<rparr>))"

text \<open>\<open>n\<close> calls of \<^verbatim>\<open>Close\<close>, one after the other.\<close>

fun Close_times :: "nat \<Rightarrow> 'p Conn \<Rightarrow> panic + 'p Conn" where
  "Close_times 0 c = Inr c"
| "Close_times (Suc n) c = (case Close c of Inl e \<Rightarrow> Inl e | Inr c' \<Rightarrow> Close_times n c')"

definition IsClosed :: "'p Conn \<Rightarrow> bool" where
  "IsClosed c \<longleftrightarrow> closeFlag c = 1"

text \<open>
  The channels of a connection are closed by the body of \<^verbatim>\<open>Close\<close> only, so they are
  open as long as the \<^verbatim>\<open>sync.Once\<close> has not run.
\<close>

definition fresh_once :: "'p Conn \<Rightarrow> bool" where
  "fresh_once c \<longleftrightarrow>
     \<not> closeOnce c \<and> \<not> ch_closed (closeChan c) \<and> \<not> ch_closed (packetSendChan c)
       \<and> \<not> ch_closed (packetReceiveChan c)"

definition close_events :: "'p event list" where
  "close_events =
     [StoreCloseFlag, CloseCloseChan, CloseSendChan, CloseReceiveChan, SockClose, OnClose]"

section \<open>AsyncWritePacket\<close>

text \<open>\<^verbatim>\<open>time.Duration\<close> is an \<^verbatim>\<open>int64\<close>.\<close>

type_synonym duration = "64 word"

text \<open>
  The \<^verbatim>\<open>select\<close> of lines 116-125 waits for the first of three cases. Which case fires
  is decided by the scheduler and by the other goroutines, so it is an argument of the
  model; each case can fire only when it is ready in the state at hand.
\<close>

datatype wake = SendCase | CloseCase | TimerCase

text \<open>
  The part of \<^verbatim>\<open>AsyncWritePacket\<close> after the \<^verbatim>\<open>IsClosed\<close> test (lines 98-126), with no
  goroutine parked on the receiving end of \<^verbatim>\<open>packetSendChan\<close>. The result is \<open>None\<close>
  when the chosen case of the waiting \<^verbatim>\<open>select\<close> is not ready, \<open>Some (err, c')\<close> when
  the call returns \<open>err\<close> (\<open>None\<close> for \<^verbatim>\<open>nil\<close>).

  With \<^verbatim>\<open>timeout == 0\<close> the \<^verbatim>\<open>select\<close> has a \<^verbatim>\<open>default\<close> and never waits. A send on
  a closed channel panics; the deferred function recovers, logs and returns
  \<^verbatim>\<open>ErrConnClosing\<close>. The timer of \<^verbatim>\<open>time.After\<close> is ready at once for a negative
  duration and otherwise fires only when the call has been waiting, that is when no other
  case was ready.
\<close>

definition awp_select :: "'p Conn \<Rightarrow> 'p \<Rightarrow> duration \<Rightarrow> wake \<Rightarrow> (error option \<times> 'p Conn) option"
  where
  "awp_select c p timeout w =
     (if timeout = 0 then
        (case chan_send (packetSendChan c) p of
           SendOk ch \<Rightarrow> Some (None, c\<lparr>packetSendChan := ch\<rparr>)
         | SendBlocks \<Rightarrow>
             Some (Some ErrWriteBlocking, emit (WriteLog LogAsyncWriteBlocking) c)
         | SendPanics \<Rightarrow>
             Some (Some ErrConnClosing,
                   emit (WriteLog (LogAsyncWritePanic SendOnClosedChannel)) c))
      else
        (case w of
           SendCase \<Rightarrow>
             (case chan_send (packetSendChan c) p of
                SendOk ch \<Rightarrow> Some (None, c\<lparr>packetSendChan := ch\<rparr>)
              | SendBlocks \<Rightarrow> None
              | SendPanics \<Rightarrow>
                  Some (Some ErrConnClosing,
                        emit (WriteLog (LogAsyncWritePanic SendOnClosedChannel)) c))
         | CloseCase \<Rightarrow>
             (if ch_closed (closeChan c) then Some (Some ErrConnClosing, c) else None)
         | TimerCase \<Rightarrow>
             (if sint timeout < 0
                 \<or> (chan_send (packetSendChan c) p = SendBlocks \<and> \<not> ch_closed (closeChan c))
              then Some (Some ErrWriteBlocking, c) else None)))"

text \<open>\<^verbatim>\<open>AsyncWritePacket\<close> (lines 93-127).\<close>

definition AsyncWritePacket ::
  "'p Conn \<Rightarrow> 'p \<Rightarrow> duration \<Rightarrow> wake \<Rightarrow> (error option \<times> 'p Conn) option" where
  "AsyncWritePacket c p timeout w =
     (if IsClosed c then Some (Some ErrConnClosing, c) else awp_select c p timeout w)"

text \<open>
  Zero-timeout writes of a list of packets, one call after the other, with the list of
  what the calls returned.
\<close>

fun write_each :: "'p Conn \<Rightarrow> 'p list \<Rightarrow> wake \<Rightarrow> (error option list \<times> 'p Conn) option" where
  "write_each c [] w = Some ([], c)"
| "write_each c (p # ps) w =
     (case AsyncWritePacket c p 0 w of
        None \<Rightarrow> None
      | Some (r, c') \<Rightarrow>
          (case write_each c' ps w of
             None \<Rightarrow> None
           | Some (rs, c'') \<Rightarrow> Some (r # rs, c'')))"

text \<open>
  Calls on a connection by one caller, one after the other: writes with any packet,
  timeout and firing case, and further calls of \<^verbatim>\<open>Close\<close>. The result lists what the
  writes returned; it is \<open>None\<close> when a write never returns or a call panics.
\<close>

datatype 'p call = CallWrite 'p duration wake | CallClose

fun calls :: "'p Conn \<Rightarrow> 'p call list \<Rightarrow> (error option list \<times> 'p Conn) option" where
  "calls c [] = Some ([], c)"
| "calls c (CallWrite p t w # cs) =
     (case AsyncWritePacket c p t w of
        None \<Rightarrow> None
      | Some (r, c') \<Rightarrow>
          (case calls c' cs of None \<Rightarrow> None | Some (rs, c'') \<Rightarrow> Some (r # rs, c'')))"
| "calls c (CallClose # cs) =
     (case Close c of Inl e \<Rightarrow> None | Inr c' \<Rightarrow> calls c' cs)"

text \<open>
  The states of a connection between two calls, when no call is under way: before the
  body of \<^verbatim>\<open>Close\<close> has run the flag is 0 and the channels are open, afterwards the flag
  is 1 and the channels and the socket are closed.
\<close>

definition conn_ok :: "'p Conn \<Rightarrow> bool" where
  "conn_ok c \<longleftrightarrow>
     (if closeOnce c
      then closeFlag c = 1 \<and> ch_closed (closeChan c) \<and> ch_closed (packetSendChan c)
             \<and> ch_closed (packetReceiveChan c) \<and> rawClosed c
      else closeFlag c = 0 \<and> \<not> ch_closed (closeChan c) \<and> \<not> ch_closed (packetSendChan c)
             \<and> \<not> ch_closed (packetReceiveChan c))"

section \<open>The goroutines of a connection\<close>

text \<open>
  Where a goroutine stands in its code.
  \<^item> \<open>Idle\<close>: a loop that \<^verbatim>\<open>Do\<close> has not spawned; the application between two calls.
  \<^item> \<open>AtOnConnect\<close>, \<open>AtSpawn k\<close>: \<^verbatim>\<open>Do\<close> before the call of the hook (line 131) and
    before its \<open>k\<close>-th \<^verbatim>\<open>asyncDo\<close> (lines 135-137).
  \<^item> \<open>LoopTop\<close>: a loop at its \<^verbatim>\<open>select\<close> (lines 153, 186, 218).
  \<^item> \<open>AtRead\<close>, \<open>AtSend p\<close>: \<^verbatim>\<open>readLoop\<close> before \<^verbatim>\<open>ReadPacket\<close> (line 163) and before
    the send of \<open>p\<close> (line 169).
  \<^item> \<open>AtCheck x\<close>: \<^verbatim>\<open>writeLoop\<close> and \<^verbatim>\<open>handleLoop\<close> with the received \<open>x\<close> before
    \<^verbatim>\<open>IsClosed\<close> (lines 194, 226); \<open>AtWrite x\<close>, \<open>AtHook x\<close>: before the write to the socket
    (line 197) and before \<^verbatim>\<open>OnMessage\<close> (line 229).
  \<^item> \<open>AtDefer r\<close>: in the deferred function of a loop, before \<^verbatim>\<open>recover\<close> and the log
    line, \<open>r\<close> being the panic under way if any; \<open>AtClose\<close>: before \<^verbatim>\<open>c.Close()\<close>.
  \<^item> \<open>InClose k\<close>: inside \<^verbatim>\<open>closeOnce.Do\<close>, before statement \<open>k\<close> of the body, and for
    \<open>k = 6\<close> before \<^verbatim>\<open>Do\<close> marks the \<^verbatim>\<open>sync.Once\<close> done and unlocks it.
  \<^item> \<open>AtDone\<close>: the function of the goroutine has returned, before \<^verbatim>\<open>wg.Done()\<close>;
    \<open>Gone\<close>: the goroutine has ended; \<open>Crashed e\<close>: it panicked outside any \<^verbatim>\<open>recover\<close>.
  \<^item> \<open>AtSelect p t\<close>: the application in \<^verbatim>\<open>AsyncWritePacket\<close> past the \<^verbatim>\<open>IsClosed\<close> test.
\<close>

datatype 'p pc =
    Idle
  | AtOnConnect
  | AtSpawn nat
  | LoopTop
  | AtRead
  | AtSend 'p
  | AtCheck "'p option"
  | AtHook "'p option"
  | AtWrite "'p option"
  | AtDefer "panic option"
  | AtClose
  | InClose nat
  | AtDone
  | Gone
  | Crashed panic
  | AtSelect 'p duration

text \<open>
  One connection with its goroutines: the \<^verbatim>\<open>Conn\<close>, whether the mutex of its
  \<^verbatim>\<open>sync.Once\<close> is held, where each goroutine stands, and what the coming calls of the
  protocol's \<^verbatim>\<open>ReadPacket\<close> will return, in order (\<open>Some p\<close> a packet, \<open>None\<close> an error;
  when the list is used up \<^verbatim>\<open>ReadPacket\<close> does not return).
\<close>

record 'p conn_sys =
  conn :: "'p Conn"
  onceBusy :: bool
  pcs :: "goroutine \<Rightarrow> 'p pc"
  script :: "'p option list"

definition goto :: "goroutine \<Rightarrow> 'p pc \<Rightarrow> 'p conn_sys \<Rightarrow> 'p conn_sys" where
  "goto g l s = s\<lparr>pcs := (pcs s)(g := l)\<rparr>"

definition ev :: "'p event \<Rightarrow> 'p conn_sys \<Rightarrow> 'p conn_sys" where
  "ev e s = s\<lparr>conn := emit e (conn s)\<rparr>"

text \<open>
  The state in which the goroutine spawned by \<^verbatim>\<open>Start\<close> (lines 58-62 of
  \<^verbatim>\<open>server.go\<close>) has made the connection with \<^verbatim>\<open>newConn\<close> and is about to run \<^verbatim>\<open>Do\<close>.
\<close>

definition init_sys :: "Config \<Rightarrow> 'p option list \<Rightarrow> 'p conn_sys" where
  "init_sys cfg rs =
     \<lparr>conn = newConn cfg, onceBusy = False, pcs = (\<lambda>g. Idle)(Doer := AtOnConnect),
      script = rs\<rparr>"

text \<open>
  The steps of the goroutines. A step names the goroutine that moves and what the
  application's hooks, the socket and the scheduler decide in it.
\<close>

datatype 'p label =
    Connect bool
  | Spawn
  | SelExit goroutine
  | SelClose goroutine
  | SelDefault
  | SelRecv goroutine
  | Handoff goroutine
  | Decode
  | Send
  | Check goroutine
  | Message bool
  | SockWritten bool
  | Deferred goroutine
  | EnterClose goroutine
  | CloseStmt goroutine
  | Done goroutine
  | AppClose
  | AppWrite 'p duration
  | AppSelect wake

definition is_loop :: "goroutine \<Rightarrow> bool" where
  "is_loop g \<longleftrightarrow> g = Handler \<or> g = Reader \<or> g = Writer"

text \<open>Where a goroutine goes on when its call of \<^verbatim>\<open>Close\<close> returns.\<close>

definition after_close :: "goroutine \<Rightarrow> 'p pc" where
  "after_close g = (if g = Caller then Idle else AtDone)"

text \<open>
  The queue a loop receives from, and a receive from it without a sender parked on it:
  the oldest buffered value, or \<^verbatim>\<open>nil\<close> at once from a closed and empty channel.
\<close>

definition queue_of :: "goroutine \<Rightarrow> 'p Conn \<Rightarrow> 'p chan" where
  "queue_of g c = (if g = Handler then packetReceiveChan c else packetSendChan c)"

definition set_queue :: "goroutine \<Rightarrow> 'p chan \<Rightarrow> 'p Conn \<Rightarrow> 'p Conn" where
  "set_queue g ch c =
     (if g = Handler then c\<lparr>packetReceiveChan := ch\<rparr> else c\<lparr>packetSendChan := ch\<rparr>)"

definition chan_recv :: "'a chan \<Rightarrow> ('a option \<times> 'a chan) option" where
  "chan_recv ch =
     (case ch_buf ch of
        x # xs \<Rightarrow> Some (Some x, ch\<lparr>ch_buf := xs\<rparr>)
      | [] \<Rightarrow> (if ch_closed ch then Some (None, ch) else None))"

text \<open>
  \<open>step exit l s\<close> is the state after step \<open>l\<close> and the amount the step adds to the
  counter of the server's \<^verbatim>\<open>WaitGroup\<close>, or \<open>None\<close> when the step cannot be taken in
  \<open>s\<close>; \<open>exit\<close> tells whether the server's exit channel is closed at that moment.

  \<^item> \<open>Connect b\<close>: \<^verbatim>\<open>Do\<close> calls \<^verbatim>\<open>OnConnect\<close>, which returns \<open>b\<close>; on \<open>False\<close> \<^verbatim>\<open>Do\<close>
    returns (lines 131-133).
  \<^item> \<open>Spawn\<close>: the next \<^verbatim>\<open>asyncDo\<close> of \<^verbatim>\<open>Do\<close>: \<^verbatim>\<open>wg.Add(1)\<close> and the \<^verbatim>\<open>go\<close> statement,
    for \<^verbatim>\<open>handleLoop\<close>, \<^verbatim>\<open>readLoop\<close> and \<^verbatim>\<open>writeLoop\<close> in this order.
  \<^item> \<open>SelExit g\<close>, \<open>SelClose g\<close>: the \<^verbatim>\<open>select\<close> of loop \<open>g\<close> takes the case of the exit
    channel, or of \<^verbatim>\<open>closeChan\<close>; a receive from a channel is ready when it is closed.
  \<^item> \<open>SelDefault\<close>: the \<^verbatim>\<open>select\<close> of \<^verbatim>\<open>readLoop\<close> takes \<^verbatim>\<open>default\<close>, no case being ready.
  \<^item> \<open>SelRecv g\<close>: the \<^verbatim>\<open>select\<close> of \<^verbatim>\<open>handleLoop\<close> or \<^verbatim>\<open>writeLoop\<close> receives from its
    queue.
  \<^item> \<open>Handoff g\<close>: a sender passes its packet to loop \<open>g\<close> waiting at its \<^verbatim>\<open>select\<close> on
    the open and empty queue: \<^verbatim>\<open>readLoop\<close> to \<^verbatim>\<open>handleLoop\<close>, the application in
    \<^verbatim>\<open>AsyncWritePacket\<close> to \<^verbatim>\<open>writeLoop\<close>.
  \<^item> \<open>Decode\<close>: \<^verbatim>\<open>ReadPacket\<close> returns; on an error \<^verbatim>\<open>readLoop\<close> logs and returns.
  \<^item> \<open>Send\<close>: the send of line 169 into the buffer; it panics on a closed channel.
  \<^item> \<open>Check g\<close>: the test of \<^verbatim>\<open>IsClosed\<close> after a receive.
  \<^item> \<open>Message b\<close>: \<^verbatim>\<open>OnMessage\<close> returns \<open>b\<close>.
  \<^item> \<open>SockWritten ok\<close>: \<^verbatim>\<open>p.Serialize()\<close>, which panics on \<^verbatim>\<open>nil\<close>, and the write to the
    socket, which succeeds or fails.
  \<^item> \<open>Deferred g\<close>: the deferred function of a loop recovers and logs.
  \<^item> \<open>EnterClose g\<close>: \<^verbatim>\<open>closeOnce.Do\<close>: it returns at once when the \<^verbatim>\<open>sync.Once\<close> is
    done, waits while another goroutine runs the body, and otherwise locks and starts the
    body.
  \<^item> \<open>CloseStmt g\<close>: the next statement of the body of \<^verbatim>\<open>Close\<close>, or the end of
    \<^verbatim>\<open>closeOnce.Do\<close>. A panic in the body also marks the \<^verbatim>\<open>sync.Once\<close> done and unlocks.
  \<^item> \<open>Done g\<close>: \<^verbatim>\<open>wg.Done()\<close>, the last statement of the goroutine.
  \<^item> \<open>AppClose\<close>, \<open>AppWrite p t\<close>, \<open>AppSelect w\<close>: the application calls \<^verbatim>\<open>Close\<close>; it
    calls \<^verbatim>\<open>AsyncWritePacket\<close>, which tests \<^verbatim>\<open>IsClosed\<close>; the rest of that call.
  The hooks, the protocol and the socket are taken to return; a panic of theirs is not
  modelled.
\<close>

fun step :: "bool \<Rightarrow> 'p label \<Rightarrow> 'p conn_sys \<Rightarrow> (int \<times> 'p conn_sys) option" where
  "step exit (Connect b) s =
     (if pcs s Doer = AtOnConnect
      then Some (0, goto Doer (if b then AtSpawn 0 else AtDone) (ev (OnConnect b) s))
      else None)"
| "step exit Spawn s =
     (case pcs s Doer of
        AtSpawn k \<Rightarrow>
          (if k = 0 then Some (1, goto Doer (AtSpawn 1) (goto Handler LoopTop s))
           else if k = 1 then Some (1, goto Doer (AtSpawn 2) (goto Reader LoopTop s))
           else if k = 2 then Some (1, goto Doer AtDone (goto Writer LoopTop s))
           else None)
      | _ \<Rightarrow> None)"
| "step exit (SelExit g) s =
     (if is_loop g \<and> pcs s g = LoopTop \<and> exit then Some (0, goto g (AtDefer None) s)
      else None)"
| "step exit (SelClose g) s =
     (if is_loop g \<and> pcs s g = LoopTop \<and> ch_closed (closeChan (conn s))
      then Some (0, goto g (AtDefer None) s) else None)"
| "step exit SelDefault s =
     (if pcs s Reader = LoopTop \<and> \<not> exit \<and> \<not> ch_closed (closeChan (conn s))
      then Some (0, goto Reader AtRead s) else None)"
| "step exit (SelRecv g) s =
     (if (g = Handler \<or> g = Writer) \<and> pcs s g = LoopTop
      then (case chan_recv (queue_of g (conn s)) of
              None \<Rightarrow> None
            | Some (x, ch) \<Rightarrow> Some (0, goto g (AtCheck x) (s\<lparr>conn := set_queue g ch (conn s)\<rparr>)))
      else None)"
| "step exit (Handoff g) s =
     (if (g = Handler \<or> g = Writer) \<and> pcs s g = LoopTop
         \<and> \<not> ch_closed (queue_of g (conn s)) \<and> ch_buf (queue_of g (conn s)) = []
      then (if g = Handler
            then (case pcs s Reader of
                    AtSend p \<Rightarrow> Some (0, goto Reader LoopTop (goto Handler (AtCheck (Some p)) s))
                  | _ \<Rightarrow> None)
            else (case pcs s Caller of
                    AtSelect p t \<Rightarrow>
                      Some (0, goto Caller Idle
                                 (ev (AsyncWriteReturns None) (goto Writer (AtCheck (Some p)) s)))
                  | _ \<Rightarrow> None))
      else None)"
| "step exit Decode s =
     (if pcs s Reader = AtRead
      then (case script s of
              [] \<Rightarrow> None
            | Some p # rs \<Rightarrow>
                Some (0, goto Reader (AtSend p) (ev (ReadPacket (Some p)) (s\<lparr>script := rs\<rparr>)))
            | None # rs \<Rightarrow>
                Some (0, goto Reader (AtDefer None)
                           (ev (WriteLog LogReadPacketErr)
                              (ev (ReadPacket None) (s\<lparr>script := rs\<rparr>)))))
      else None)"
| "step exit Send s =
     (case pcs s Reader of
        AtSend p \<Rightarrow>
          (case chan_send (packetReceiveChan (conn s)) p of
             SendOk ch \<Rightarrow>
               Some (0, goto Reader LoopTop (s\<lparr>conn := (conn s)\<lparr>packetReceiveChan := ch\<rparr>\<rparr>))
           | SendPanics \<Rightarrow> Some (0, goto Reader (AtDefer (Some SendOnClosedChannel)) s)
           | SendBlocks \<Rightarrow> None)
      | _ \<Rightarrow> None)"
| "step exit (Check g) s =
     (if g = Handler \<or> g = Writer
      then (case pcs s g of
              AtCheck x \<Rightarrow>
                (if IsClosed (conn s) then Some (0, goto g (AtDefer None) s)
                 else Some (0, goto g (if g = Handler then AtHook x else AtWrite x) s))
            | _ \<Rightarrow> None)
      else None)"
| "step exit (Message b) s =
     (case pcs s Handler of
        AtHook x \<Rightarrow>
          Some (0, goto Handler (if b then LoopTop else AtDefer None) (ev (OnMessage x b) s))
      | _ \<Rightarrow> None)"
| "step exit (SockWritten ok) s =
     (case pcs s Writer of
        AtWrite None \<Rightarrow> Some (0, goto Writer (AtDefer (Some NilDereference)) s)
      | AtWrite (Some p) \<Rightarrow>
          (if ok then Some (0, goto Writer LoopTop (ev (SockWrite p True) s))
           else Some (0, goto Writer (AtDefer None)
                           (ev (WriteLog LogWriteErr) (ev (SockWrite p False) s))))
      | _ \<Rightarrow> None)"
| "step exit (Deferred g) s =
     (if is_loop g
      then (case pcs s g of
              AtDefer None \<Rightarrow> Some (0, goto g AtClose (ev (WriteLog (LogLoopExit g)) s))
            | AtDefer (Some e) \<Rightarrow> Some (0, goto g AtClose (ev (WriteLog (LogLoopPanic g e)) s))
            | _ \<Rightarrow> None)
      else None)"
| "step exit (EnterClose g) s =
     (if pcs s g = AtClose
      then (if closeOnce (conn s) then Some (0, goto g (after_close g) s)
            else if onceBusy s then None
            else Some (0, goto g (InClose 0) (s\<lparr>onceBusy := True\<rparr>)))
      else None)"
| "step exit (CloseStmt g) s =
     (case pcs s g of
        InClose k \<Rightarrow>
          (if k < 6
           then (case close_stmt k (conn s) of
                   Inr c' \<Rightarrow> Some (0, goto g (InClose (Suc k)) (s\<lparr>conn := c'\<rparr>))
                 | Inl e \<Rightarrow>
                     Some (0, goto g (Crashed e)
                                (s\<lparr>conn := (conn s)\<lparr>closeOnce := True\<rparr>, onceBusy := False\<rparr>)))
           else Some (0, goto g (after_close g)
                           (s\<lparr>conn := (conn s)\<lparr>closeOnce := True\<rparr>, onceBusy := False\<rparr>)))
      | _ \<Rightarrow> None)"
| "step exit (Done g) s =
     (if g \<noteq> Caller \<and> pcs s g = AtDone then Some (- 1, goto g Gone s) else None)"
| "step exit AppClose s =
     (if pcs s Caller = Idle then Some (0, goto Caller AtClose s) else None)"
| "step exit (AppWrite p t) s =
     (if pcs s Caller = Idle
      then (if IsClosed (conn s) then Some (0, ev (AsyncWriteReturns (Some ErrConnClosing)) s)
            else Some (0, goto Caller (AtSelect p t) s))
      else None)"
| "step exit (AppSelect w) s =
     (case pcs s Caller of
        AtSelect p t \<Rightarrow>
          (case awp_select (conn s) p t w of
             None \<Rightarrow> None
           | Some (r, c') \<Rightarrow>
               Some (0, goto Caller Idle (ev (AsyncWriteReturns r) (s\<lparr>conn := c'\<rparr>))))
      | _ \<Rightarrow> None)"

text \<open>
  A run: the steps of a schedule one after the other, each with the state of the exit
  channel at its moment; the result adds up what the steps add to the \<^verbatim>\<open>WaitGroup\<close>.
\<close>

fun run :: "(bool \<times> 'p label) list \<Rightarrow> 'p conn_sys \<Rightarrow> (int \<times> 'p conn_sys) option" where
  "run [] s = Some (0, s)"
| "run ((exit, l) # ls) s =
     (case step exit l s of
        None \<Rightarrow> None
      | Some (d, s') \<Rightarrow>
          (case run ls s' of None \<Rightarrow> None | Some (d', s'') \<Rightarrow> Some (d + d', s'')))"

text \<open>
  The events that neither run a hook other than \<^verbatim>\<open>OnConnect\<close> nor touch the socket or
  the body of \<^verbatim>\<open>Close\<close>, and the states of a connection that \<^verbatim>\<open>OnConnect\<close> has
  rejected and on which nobody has called \<^verbatim>\<open>Close\<close>.
\<close>

definition quiet :: "'p event \<Rightarrow> bool" where
  "quiet e =
     (case e of OnConnect b \<Rightarrow> True | AsyncWriteReturns r \<Rightarrow> True | WriteLog l \<Rightarrow> True
      | _ \<Rightarrow> False)"

definition rejected :: "'p conn_sys \<Rightarrow> bool" where
  "rejected s \<longleftrightarrow>
     (pcs s Doer = AtDone \<or> pcs s Doer = Gone)
     \<and> pcs s Handler = Idle \<and> pcs s Reader = Idle \<and> pcs s Writer = Idle
     \<and> (pcs s Caller = Idle \<or> (\<exists>p t. pcs s Caller = AtSelect p t))
     \<and> \<not> onceBusy s \<and> \<not> closeOnce (conn s) \<and> \<not> rawClosed (conn s)
     \<and> (\<forall>e \<in> set (history (conn s)). quiet e)"

section \<open>Server\<close>

text \<open>
  \<^verbatim>\<open>Server\<close> (lines 14-20 of \<^verbatim>\<open>server.go\<close>): the configuration, the exit channel and
  the counter of the \<^verbatim>\<open>sync.WaitGroup\<close>. The callback and the protocol are the
  application's; what they return is an argument of the steps that call them.
\<close>

record Server =
  config :: Config
  exitChan :: "unit chan"
  waitGroup :: int

definition NewServer :: "Config \<Rightarrow> Server" where
  "NewServer cfg = \<lparr>config = cfg, exitChan = make_chan 0, waitGroup = 0\<rparr>"

text \<open>
  \<^verbatim>\<open>Stop\<close> (lines 67-70) seen from its caller: \<^verbatim>\<open>close(s.exitChan)\<close> panics on a closed
  channel; \<^verbatim>\<open>Wait\<close> returns when the counter is 0 and keeps the caller waiting otherwise.
\<close>

datatype 'a outcome = Returns 'a | Panics panic | Waits 'a

definition Stop :: "Server \<Rightarrow> Server outcome" where
  "Stop s =
     (case close_chan (exitChan s) of
        Inl e \<Rightarrow> Panics e
      | Inr ch \<Rightarrow>
          (let s' = s\<lparr>exitChan := ch\<rparr>
           in if waitGroup s' = 0 then Returns s' else Waits s'))"

text \<open>Two calls of \<^verbatim>\<open>Stop\<close> on the same server, the second after the first returned.\<close>

definition Stop_twice :: "Server \<Rightarrow> Server outcome" where
  "Stop_twice s = (case Stop s of Returns s' \<Rightarrow> Stop s' | Panics e \<Rightarrow> Panics e | Waits s' \<Rightarrow> Waits s')"

section \<open>Properties\<close>

subsection \<open>The body of Close\<close>

declare close_from.simps [simp del]

lemma close_from_end: "close_from 6 c = Inr c"
  by (simp add: close_from.simps)

lemma close_from_next:
  "k < 6 \<Longrightarrow> close_stmt k c = Inr c' \<Longrightarrow> close_from k c = close_from (Suc k) c'"
  by (subst close_from.simps) simp

lemma close_from_panic:
  "k < 6 \<Longrightarrow> close_stmt k c = Inl e \<Longrightarrow> close_from k c = Inl e"
  by (subst close_from.simps) simp

lemma close_from_fresh:
  assumes "\<not> ch_closed (closeChan c)" and "\<not> ch_closed (packetSendChan c)"
    and "\<not> ch_closed (packetReceiveChan c)"
  shows "close_from 0 c =
     Inr (c\<lparr>closeFlag := 1, closeChan := (closeChan c)\<lparr>ch_closed := True\<rparr>,
            packetSendChan := (packetSendChan c)\<lparr>ch_closed := True\<rparr>,
            packetReceiveChan := (packetReceiveChan c)\<lparr>ch_closed := True\<rparr>,
            rawClosed := True, history := history c @ close_events\<rparr>)"
  using assms
  apply (subst close_from.simps, simp add: close_chan_def emit_def)
  apply (subst close_from.simps, simp add: close_chan_def emit_def)
  apply (subst close_from.simps, simp add: close_chan_def emit_def eval_nat_numeral)
  apply (subst close_from.simps, simp add: close_chan_def emit_def eval_nat_numeral)
  apply (subst close_from.simps, simp add: close_chan_def emit_def eval_nat_numeral)
  apply (subst close_from.simps, simp add: close_chan_def emit_def eval_nat_numeral)
  apply (subst close_from.simps, simp add: close_events_def eval_nat_numeral)
  done

lemma Close_fresh:
  "fresh_once c \<Longrightarrow>
   Close c =
     Inr (c\<lparr>closeFlag := 1, closeChan := (closeChan c)\<lparr>ch_closed := True\<rparr>,
            packetSendChan := (packetSendChan c)\<lparr>ch_closed := True\<rparr>,
            packetReceiveChan := (packetReceiveChan c)\<lparr>ch_closed := True\<rparr>,
            rawClosed := True, history := history c @ close_events, closeOnce := True\<rparr>)"
  by (simp add: Close_def fresh_once_def close_from_fresh)

lemma Close_done: "closeOnce c \<Longrightarrow> Close c = Inr c"
  by (simp add: Close_def)

lemma Close_times_done: "closeOnce c \<Longrightarrow> Close_times n c = Inr c"
  by (induction n) (simp_all add: Close_done)

lemma close_stmt_flag:
  "close_stmt k c = Inr c' \<Longrightarrow> closeFlag c' = (if k = 0 then 1 else closeFlag c)"
  by (cases "(k, c)" rule: close_stmt.cases)
     (auto simp: emit_def close_chan_def split: if_splits)

lemma close_from_keeps_flag:
  "close_from k c = Inr c' \<Longrightarrow> 0 < k \<Longrightarrow> closeFlag c' = closeFlag c"
proof (induction k c rule: close_from.induct)
  case (1 k c)
  show ?case
  proof (cases "6 \<le> k")
    case True
    with "1.prems" show ?thesis by (simp add: close_from.simps)
  next
    case False
    with "1.prems" obtain d where d: "close_stmt k c = Inr d" "close_from (Suc k) d = Inr c'"
      by (subst (asm) close_from.simps) (auto split: sum.splits)
    from "1.IH" [OF False d(1) d(2)] close_stmt_flag [OF d(1)] "1.prems"(2)
    show ?thesis by simp
  qed
qed

lemma close_from_sets_flag:
  assumes "close_from 0 c = Inr c'"
  shows "closeFlag c' = 1"
proof -
  from assms have "close_from (Suc 0) (emit StoreCloseFlag (c\<lparr>closeFlag := 1\<rparr>)) = Inr c'"
    by (subst (asm) close_from.simps) simp
  from close_from_keeps_flag [OF this] show ?thesis by (simp add: emit_def)
qed

lemma Close_returns_closed:
  assumes "closeOnce c \<longrightarrow> closeFlag c = 1" and "Close c = Inr c'"
  shows "closeOnce c' \<and> closeFlag c' = 1"
proof (cases "closeOnce c")
  case True
  with assms show ?thesis by (simp add: Close_done)
next
  case False
  with assms(2) obtain d where d: "close_from 0 c = Inr d" and c': "c' = d\<lparr>closeOnce := True\<rparr>"
    by (auto simp: Close_def split: sum.splits)
  from close_from_sets_flag [OF d] c' show ?thesis by simp
qed

subsection \<open>The steps of the goroutines, one by one\<close>

lemma step_Connect:
  "step e (Connect b) s = Some (d, s') \<longleftrightarrow>
     pcs s Doer = AtOnConnect \<and> d = 0
     \<and> s' = goto Doer (if b then AtSpawn 0 else AtDone) (ev (OnConnect b) s)"
  by auto

lemma step_Spawn:
  "step e Spawn s = Some (d, s') \<longleftrightarrow>
     d = 1 \<and> ((pcs s Doer = AtSpawn 0 \<and> s' = goto Doer (AtSpawn 1) (goto Handler LoopTop s))
       \<or> (pcs s Doer = AtSpawn 1 \<and> s' = goto Doer (AtSpawn 2) (goto Reader LoopTop s))
       \<or> (pcs s Doer = AtSpawn 2 \<and> s' = goto Doer AtDone (goto Writer LoopTop s)))"
  by (cases "pcs s Doer") auto

lemma step_SelExit:
  "step e (SelExit g) s = Some (d, s') \<longleftrightarrow>
     is_loop g \<and> pcs s g = LoopTop \<and> e \<and> d = 0 \<and> s' = goto g (AtDefer None) s"
  by auto

lemma step_SelClose:
  "step e (SelClose g) s = Some (d, s') \<longleftrightarrow>
     is_loop g \<and> pcs s g = LoopTop \<and> ch_closed (closeChan (conn s)) \<and> d = 0
     \<and> s' = goto g (AtDefer None) s"
  by auto

lemma step_SelDefault:
  "step e SelDefault s = Some (d, s') \<longleftrightarrow>
     pcs s Reader = LoopTop \<and> \<not> e \<and> \<not> ch_closed (closeChan (conn s)) \<and> d = 0
     \<and> s' = goto Reader AtRead s"
  by auto

lemma step_SelRecv:
  "step e (SelRecv g) s = Some (d, s') \<longleftrightarrow>
     (g = Handler \<or> g = Writer) \<and> pcs s g = LoopTop \<and> d = 0
     \<and> (\<exists>x ch. chan_recv (queue_of g (conn s)) = Some (x, ch)
            \<and> s' = goto g (AtCheck x) (s\<lparr>conn := set_queue g ch (conn s)\<rparr>))"
  by (auto split: option.splits)

lemma step_Handoff:
  "step e (Handoff g) s = Some (d, s') \<longleftrightarrow>
     (g = Handler \<or> g = Writer) \<and> pcs s g = LoopTop \<and> d = 0
     \<and> \<not> ch_closed (queue_of g (conn s)) \<and> ch_buf (queue_of g (conn s)) = []
     \<and> ((g = Handler \<and> (\<exists>p. pcs s Reader = AtSend p
              \<and> s' = goto Reader LoopTop (goto Handler (AtCheck (Some p)) s)))
        \<or> (g = Writer \<and> (\<exists>p t. pcs s Caller = AtSelect p t
              \<and> s' = goto Caller Idle
                       (ev (AsyncWriteReturns None) (goto Writer (AtCheck (Some p)) s)))))"
  by (cases "pcs s Reader"; cases "pcs s Caller") auto

lemma step_Decode:
  "step e Decode s = Some (d, s') \<longleftrightarrow>
     pcs s Reader = AtRead \<and> d = 0
     \<and> (\<exists>r rs. script s = r # rs
          \<and> s' = (case r of
                    Some p \<Rightarrow> goto Reader (AtSend p) (ev (ReadPacket (Some p)) (s\<lparr>script := rs\<rparr>))
                  | None \<Rightarrow> goto Reader (AtDefer None)
                             (ev (WriteLog LogReadPacketErr)
                                (ev (ReadPacket None) (s\<lparr>script := rs\<rparr>)))))"
  by (auto split: list.splits option.splits)

lemma step_Send:
  "step e Send s = Some (d, s') \<longleftrightarrow>
     d = 0 \<and> (\<exists>p. pcs s Reader = AtSend p
       \<and> ((\<exists>ch. chan_send (packetReceiveChan (conn s)) p = SendOk ch
              \<and> s' = goto Reader LoopTop (s\<lparr>conn := (conn s)\<lparr>packetReceiveChan := ch\<rparr>\<rparr>))
          \<or> (chan_send (packetReceiveChan (conn s)) p = SendPanics
              \<and> s' = goto Reader (AtDefer (Some SendOnClosedChannel)) s)))"
  by (cases "pcs s Reader") (auto split: send_result.splits)

lemma step_Check:
  "step e (Check g) s = Some (d, s') \<longleftrightarrow>
     (g = Handler \<or> g = Writer) \<and> d = 0
     \<and> (\<exists>x. pcs s g = AtCheck x
          \<and> s' = (if IsClosed (conn s) then goto g (AtDefer None) s
                  else goto g (if g = Handler then AtHook x else AtWrite x) s))"
  by (cases "pcs s g") auto

lemma step_Message:
  "step e (Message b) s = Some (d, s') \<longleftrightarrow>
     d = 0 \<and> (\<exists>x. pcs s Handler = AtHook x
       \<and> s' = goto Handler (if b then LoopTop else AtDefer None) (ev (OnMessage x b) s))"
  by (cases "pcs s Handler") auto

lemma step_SockWritten:
  "step e (SockWritten ok) s = Some (d, s') \<longleftrightarrow>
     d = 0 \<and> (\<exists>x. pcs s Writer = AtWrite x
       \<and> s' = (case x of
                 None \<Rightarrow> goto Writer (AtDefer (Some NilDereference)) s
               | Some p \<Rightarrow>
                   (if ok then goto Writer LoopTop (ev (SockWrite p True) s)
                    else goto Writer (AtDefer None)
                           (ev (WriteLog LogWriteErr) (ev (SockWrite p False) s)))))"
  by (cases "pcs s Writer") (auto split: option.splits)

lemma step_Deferred:
  "step e (Deferred g) s = Some (d, s') \<longleftrightarrow>
     is_loop g \<and> d = 0
     \<and> (\<exists>r. pcs s g = AtDefer r
          \<and> s' = goto g AtClose
                   (ev (WriteLog (case r of None \<Rightarrow> LogLoopExit g | Some x \<Rightarrow> LogLoopPanic g x)) s))"
  by (cases "pcs s g") (auto split: option.splits)

lemma step_EnterClose:
  "step e (EnterClose g) s = Some (d, s') \<longleftrightarrow>
     pcs s g = AtClose \<and> d = 0
     \<and> ((closeOnce (conn s) \<and> s' = goto g (after_close g) s)
        \<or> (\<not> closeOnce (conn s) \<and> \<not> onceBusy s \<and> s' = goto g (InClose 0) (s\<lparr>onceBusy := True\<rparr>)))"
  by auto

lemma step_CloseStmt:
  "step e (CloseStmt g) s = Some (d, s') \<longleftrightarrow>
     d = 0 \<and> (\<exists>k. pcs s g = InClose k
       \<and> ((k < 6 \<and> (\<exists>c'. close_stmt k (conn s) = Inr c'
                       \<and> s' = goto g (InClose (Suc k)) (s\<lparr>conn := c'\<rparr>)))
          \<or> (k < 6 \<and> (\<exists>x. close_stmt k (conn s) = Inl x
                       \<and> s' = goto g (Crashed x)
                                (s\<lparr>conn := (conn s)\<lparr>closeOnce := True\<rparr>, onceBusy := False\<rparr>)))
          \<or> (6 \<le> k \<and> s' = goto g (after_close g)
                                (s\<lparr>conn := (conn s)\<lparr>closeOnce := True\<rparr>, onceBusy := False\<rparr>))))"
  by (cases "pcs s g") (auto split: sum.splits)

lemma step_Done:
  "step e (Done g) s = Some (d, s') \<longleftrightarrow>
     g \<noteq> Caller \<and> pcs s g = AtDone \<and> d = - 1 \<and> s' = goto g Gone s"
  by auto

lemma step_AppClose:
  "step e AppClose s = Some (d, s') \<longleftrightarrow>
     pcs s Caller = Idle \<and> d = 0 \<and> s' = goto Caller AtClose s"
  by auto

lemma step_AppWrite:
  "step e (AppWrite p t) s = Some (d, s') \<longleftrightarrow>
     pcs s Caller = Idle \<and> d = 0
     \<and> s' = (if IsClosed (conn s) then ev (AsyncWriteReturns (Some ErrConnClosing)) s
             else goto Caller (AtSelect p t) s)"
  by auto

lemma step_AppSelect:
  "step e (AppSelect w) s = Some (d, s') \<longleftrightarrow>
     d = 0 \<and> (\<exists>p t r c'. pcs s Caller = AtSelect p t \<and> awp_select (conn s) p t w = Some (r, c')
       \<and> s' = goto Caller Idle (ev (AsyncWriteReturns r) (s\<lparr>conn := c'\<rparr>)))"
  by (cases "pcs s Caller") (auto split: option.splits)

declare step.simps [simp del]

lemmas step_iff =
  step_Connect step_Spawn step_SelExit step_SelClose step_SelDefault step_SelRecv
  step_Handoff step_Decode step_Send step_Check step_Message step_SockWritten
  step_Deferred step_EnterClose step_CloseStmt step_Done step_AppClose step_AppWrite
  step_AppSelect

subsection \<open>A rejected connection\<close>

lemma awp_select_quiet:
  "awp_select c p t w = Some (r, c') \<Longrightarrow>
   closeOnce c' = closeOnce c \<and> rawClosed c' = rawClosed c \<and>
   ((\<forall>e \<in> set (history c). quiet e) \<longrightarrow> (\<forall>e \<in> set (history c'). quiet e))"
  by (auto simp: awp_select_def emit_def quiet_def split: if_splits send_result.splits wake.splits)

lemma rejected_step:
  assumes "rejected s" and "l \<noteq> AppClose" and "step e l s = Some (d, s')"
  shows "rejected s' \<and> d \<le> 0"
proof (cases l)
  case (AppSelect w)
  with assms show ?thesis
    by (auto simp: step_iff rejected_def goto_def ev_def emit_def quiet_def
        dest!: awp_select_quiet)
next
  case (Handoff g)
  with assms show ?thesis
    by (auto simp: step_iff rejected_def)
next
  case (SelRecv g)
  with assms show ?thesis
    by (auto simp: step_iff rejected_def)
next
  case (Check g)
  with assms show ?thesis
    by (auto simp: step_iff rejected_def)
next
  case (CloseStmt g)
  with assms show ?thesis
    by (cases g) (auto simp: step_iff rejected_def)
next
  case (EnterClose g)
  with assms show ?thesis
    by (cases g) (auto simp: step_iff rejected_def)
next
  case (Done g)
  with assms show ?thesis
    by (cases g) (auto simp: step_iff rejected_def goto_def)
next
  case (Deferred g)
  with assms show ?thesis
    by (cases g) (auto simp: step_iff rejected_def is_loop_def)
next
  case (SelExit g)
  with assms show ?thesis
    by (cases g) (auto simp: step_iff rejected_def is_loop_def)
next
  case (SelClose g)
  with assms show ?thesis
    by (cases g) (auto simp: step_iff rejected_def is_loop_def)
next
  case (AppWrite p t)
  with assms show ?thesis
    by (auto simp: step_iff rejected_def goto_def ev_def emit_def quiet_def)
qed (use assms in \<open>auto simp: step_iff rejected_def\<close>)

lemma rejected_run:
  "rejected s \<Longrightarrow> AppClose \<notin> snd ` set ls \<Longrightarrow> run ls s = Some (d, s') \<Longrightarrow> rejected s' \<and> d \<le> 0"
proof (induction ls arbitrary: s d)
  case Nil
  then show ?case by simp
next
  case (Cons a ls)
  obtain e l where a: "a = (e, l)" by (cases a)
  from Cons.prems a obtain d1 s1 d2 where
    st: "step e l s = Some (d1, s1)" and rn: "run ls s1 = Some (d2, s')" and d: "d = d1 + d2"
    by (auto split: option.splits)
  from Cons.prems(2) a have l: "l \<noteq> AppClose" and ls: "AppClose \<notin> snd ` set ls" by auto
  from rejected_step [OF Cons.prems(1) l st] have r1: "rejected s1" and d1: "d1 \<le> 0" by simp_all
  from Cons.IH [OF r1 ls rn] d d1 show ?case by simp
qed

lemma rejected_after_Connect:
  "step e (Connect False) (init_sys cfg rs) = Some (d, s) \<Longrightarrow> rejected s \<and> d = 0"
  by (auto simp: step_iff rejected_def init_sys_def goto_def ev_def emit_def newConn_def quiet_def)



text \<open>
  C10. When \<^verbatim>\<open>OnConnect\<close> returns \<open>False\<close>, the code never closes the raw socket of the
  connection: \<^verbatim>\<open>Do\<close> returns, and in whatever the goroutines of the connection do
  afterwards no goroutine is at or inside \<^verbatim>\<open>Close\<close>, the \<^verbatim>\<open>sync.Once\<close> has not run, the
  socket's \<^verbatim>\<open>Close\<close> has not been called and the socket is open. The steps are those of
  the code and of an application that does not itself call \<^verbatim>\<open>Close\<close> on the connection.
\<close>

theorem rejected_socket_stays_open:
  assumes "run ((e, Connect False) # ls) (init_sys cfg rs) = Some (d, s)"
    and "AppClose \<notin> snd ` set ls"
  shows "\<not> rawClosed (conn s) \<and> SockClose \<notin> set (history (conn s))
         \<and> \<not> closeOnce (conn s) \<and> \<not> onceBusy s
         \<and> (\<forall>g. pcs s g \<noteq> AtClose \<and> (\<forall>k. pcs s g \<noteq> InClose k))"
proof -
  from assms(1) obtain d1 s1 d2 where
    st: "step e (Connect False) (init_sys cfg rs) = Some (d1, s1)"
    and rn: "run ls s1 = Some (d2, s)"
    by (auto split: option.splits)
  from rejected_after_Connect [OF st] have "rejected s1" by simp
  with rejected_run [OF _ assms(2) rn] have r: "rejected s" by simp
  have "\<not> quiet (SockClose :: 'a event)" by (simp add: quiet_def)
  with r have a: "SockClose \<notin> set (history (conn s))" by (auto simp: rejected_def)
  have "pcs s g \<noteq> AtClose \<and> (\<forall>k. pcs s g \<noteq> InClose k)" for g
    using r by (cases g) (auto simp: rejected_def)
  with r a show ?thesis by (simp add: rejected_def)
qed

theorem rejected_socket_stays_open_witness:
  "\<exists>d s. run [(True, Connect False), (True, AppWrite ''A'' 7), (True, AppSelect SendCase),
              (True, Done Doer)]
             (init_sys \<lparr>PacketSendChanLimit = 1, PacketReceiveChanLimit = 1\<rparr> []) = Some (d, s)
         \<and> AppClose \<notin> snd ` set [(True, AppWrite ''A'' 7), (True, AppSelect SendCase),
                                   (True, Done Doer)]
         \<and> \<not> rawClosed (conn s) \<and> SockClose \<notin> set (history (conn s))
         \<and> \<not> closeOnce (conn s) \<and> \<not> onceBusy s
         \<and> (\<forall>g. pcs s g \<noteq> AtClose \<and> (\<forall>k. pcs s g \<noteq> InClose k))"
proof -
  let ?ls = "[(True, AppWrite ''A'' 7), (True, AppSelect SendCase), (True, Done Doer)]"
  let ?init = "init_sys \<lparr>PacketSendChanLimit = 1, PacketReceiveChanLimit = 1\<rparr> []"
  have "\<exists>d s. run ((True, Connect False) # ?ls) ?init = Some (d, s)"
    by (simp add: step.simps init_sys_def newConn_def make_chan_def goto_def ev_def emit_def
        IsClosed_def awp_select_def chan_send_def)
  then obtain d s where r: "run ((True, Connect False) # ?ls) ?init = Some (d, s)" by blast
  have h: "AppClose \<notin> snd ` set ?ls" by simp
  from rejected_socket_stays_open [OF r h] r h show ?thesis by blast
qed

subsection \<open>Writes\<close>

lemma AsyncWritePacket_closed:
  "closeFlag c = 1 \<Longrightarrow> AsyncWritePacket c p t w = Some (Some ErrConnClosing, c)"
  by (simp add: AsyncWritePacket_def IsClosed_def)

lemma calls_closed:
  assumes "closeOnce c" and "closeFlag c = 1"
  shows "\<exists>rs. calls c cs = Some (rs, c)
           \<and> length rs = length (filter (\<lambda>x. x \<noteq> CallClose) cs)
           \<and> (\<forall>r \<in> set rs. r = Some ErrConnClosing)"
proof (induction cs)
  case Nil
  show ?case by simp
next
  case (Cons a cs)
  then obtain rs where rs: "calls c cs = Some (rs, c)"
    "length rs = length (filter (\<lambda>x. x \<noteq> CallClose) cs)" "\<forall>r \<in> set rs. r = Some ErrConnClosing"
    by blast
  show ?case
  proof (cases a)
    case (CallWrite p t w)
    then show ?thesis using rs assms by (simp add: AsyncWritePacket_closed)
  next
    case CallClose
    then show ?thesis using rs assms by (simp add: Close_done)
  qed
qed

lemma write_each_room:
  "\<not> IsClosed c \<Longrightarrow> \<not> ch_closed (packetSendChan c) \<Longrightarrow>
   length (ch_buf (packetSendChan c)) + length ps \<le> ch_cap (packetSendChan c) \<Longrightarrow>
   write_each c ps w =
     Some (replicate (length ps) None,
           c\<lparr>packetSendChan := (packetSendChan c)\<lparr>ch_buf := ch_buf (packetSendChan c) @ ps\<rparr>\<rparr>)"
proof (induction ps arbitrary: c)
  case Nil
  then show ?case by simp
next
  case (Cons p ps)
  let ?c' = "c\<lparr>packetSendChan := (packetSendChan c)\<lparr>ch_buf := ch_buf (packetSendChan c) @ [p]\<rparr>\<rparr>"
  have step: "AsyncWritePacket c p 0 w = Some (None, ?c')"
    using Cons.prems by (simp add: AsyncWritePacket_def awp_select_def chan_send_def)
  have "write_each ?c' ps w =
     Some (replicate (length ps) None,
           ?c'\<lparr>packetSendChan := (packetSendChan ?c')\<lparr>ch_buf := ch_buf (packetSendChan ?c') @ ps\<rparr>\<rparr>)"
    using Cons.prems by (intro Cons.IH) (simp_all add: IsClosed_def)
  then show ?case using step by simp
qed

lemma write_full:
  "\<not> IsClosed c \<Longrightarrow> \<not> ch_closed (packetSendChan c) \<Longrightarrow>
   length (ch_buf (packetSendChan c)) = ch_cap (packetSendChan c) \<Longrightarrow>
   AsyncWritePacket c q 0 w =
     Some (Some ErrWriteBlocking, emit (WriteLog LogAsyncWriteBlocking) c)"
  by (simp add: AsyncWritePacket_def awp_select_def chan_send_def)

lemma write_each_append:
  "write_each c (ps @ qs) w =
     (case write_each c ps w of
        None \<Rightarrow> None
      | Some (rs, c') \<Rightarrow>
          (case write_each c' qs w of
             None \<Rightarrow> None
           | Some (rs', c'') \<Rightarrow> Some (rs @ rs', c'')))"
  by (induction ps arbitrary: c) (auto split: option.splits)

text \<open>
  C3. On an open connection whose outbound queue of capacity \<open>C\<close> is empty and is not
  drained, \<open>C\<close> zero-timeout writes return \<^verbatim>\<open>nil\<close> each and leave their packets in the
  queue in order, and the next zero-timeout write returns \<^verbatim>\<open>ErrWriteBlocking\<close>; every
  one of these calls returns, whatever case a waiting \<^verbatim>\<open>select\<close> would have fired.
\<close>

theorem zero_timeout_writes_fill_then_block:
  assumes "\<not> IsClosed c" and "\<not> ch_closed (packetSendChan c)"
    and "ch_buf (packetSendChan c) = []" and "length ps = ch_cap (packetSendChan c)"
  shows "\<exists>c'. write_each c (ps @ [q]) w
                = Some (replicate (length ps) None @ [Some ErrWriteBlocking], c')
            \<and> ch_buf (packetSendChan c') = ps"
proof -
  let ?c1 = "c\<lparr>packetSendChan := (packetSendChan c)\<lparr>ch_buf := ch_buf (packetSendChan c) @ ps\<rparr>\<rparr>"
  have a: "write_each c ps w = Some (replicate (length ps) None, ?c1)"
    using assms by (intro write_each_room) simp_all
  have b: "AsyncWritePacket ?c1 q 0 w
             = Some (Some ErrWriteBlocking, emit (WriteLog LogAsyncWriteBlocking) ?c1)"
    using assms by (intro write_full) (simp_all add: IsClosed_def)
  show ?thesis
    using a b assms(3) by (simp add: write_each_append emit_def)
qed

theorem zero_timeout_writes_witness:
  "map_option fst
     (write_each (newConn \<lparr>PacketSendChanLimit = 2, PacketReceiveChanLimit = 2\<rparr>)
        [''A'', ''B'', ''C''] TimerCase)
   = Some [None, None, Some ErrWriteBlocking]"
  using zero_timeout_writes_fill_then_block
    [of "newConn \<lparr>PacketSendChanLimit = 2, PacketReceiveChanLimit = 2\<rparr>" "[''A'', ''B'']"
        "''C''" TimerCase]
  by (auto simp: newConn_def make_chan_def IsClosed_def)

text \<open>
  C4. Once a call of \<^verbatim>\<open>Close\<close> has returned, every later write on the connection, with
  any packet, timeout and firing case, and with any further calls of \<^verbatim>\<open>Close\<close> in
  between, returns \<^verbatim>\<open>ErrConnClosing\<close> and leaves the connection as it is. The connection
  is any one on which a finished \<^verbatim>\<open>sync.Once\<close> has set the flag.
\<close>

theorem write_after_Close_fails:
  assumes "closeOnce c \<longrightarrow> closeFlag c = 1" and "Close c = Inr c'"
  shows "\<exists>rs. calls c' cs = Some (rs, c')
           \<and> length rs = length (filter (\<lambda>x. x \<noteq> CallClose) cs)
           \<and> (\<forall>r \<in> set rs. r = Some ErrConnClosing)"
proof -
  from Close_returns_closed [OF assms] have "closeOnce c'" and "closeFlag c' = 1"
    by simp_all
  then show ?thesis by (rule calls_closed)
qed

theorem write_after_Close_witness:
  "(case Close (newConn \<lparr>PacketSendChanLimit = 2, PacketReceiveChanLimit = 2\<rparr>) of
      Inl e \<Rightarrow> None
    | Inr c' \<Rightarrow> map_option fst (calls c' [CallWrite ''A'' 0 SendCase, CallClose,
                                            CallWrite ''B'' 5 TimerCase]))
   = Some [Some ErrConnClosing, Some ErrConnClosing]"
proof -
  let ?c = "newConn \<lparr>PacketSendChanLimit = 2, PacketReceiveChanLimit = 2\<rparr> :: string Conn"
  have f: "fresh_once ?c" by (simp add: fresh_once_def newConn_def make_chan_def)
  have h: "closeOnce ?c \<longrightarrow> closeFlag ?c = 1" by (simp add: newConn_def)
  obtain c' where c': "Close ?c = Inr c'" using Close_fresh [OF f] by simp
  from write_after_Close_fails [OF h c',
      of "[CallWrite ''A'' 0 SendCase, CallClose, CallWrite ''B'' 5 TimerCase]"]
  obtain rs where rs: "calls c' [CallWrite ''A'' 0 SendCase, CallClose,
      CallWrite ''B'' 5 TimerCase] = Some (rs, c')" "length rs = 2"
      "\<forall>r \<in> set rs. r = Some ErrConnClosing"
    by auto
  from rs(2) obtain a b where "rs = [a, b]"
    by (metis (no_types) length_0_conv length_Suc_conv numeral_2_eq_2)
  with rs(3) have "rs = [Some ErrConnClosing, Some ErrConnClosing]" by simp
  with rs(1) c' show ?thesis by simp
qed

subsection \<open>Stop\<close>

text \<open>
  C2. A second call of \<^verbatim>\<open>Stop\<close> on the same server should complete without fault, the
  signal staying raised. The code does not do so: on a new server with nothing
  registered the first \<^verbatim>\<open>Stop\<close> returns, and the second panics on
  \<^verbatim>\<open>close(s.exitChan)\<close>, which nothing guards, where \<^verbatim>\<open>Conn.Close\<close> guards the
  close of its own signal channel with a \<^verbatim>\<open>sync.Once\<close>.
\<close>

theorem Stop_twice_panics:
  "Stop_twice (NewServer \<lparr>PacketSendChanLimit = 2, PacketReceiveChanLimit = 2\<rparr>)
   = Panics CloseOfClosedChannel"
  by (simp add: Stop_twice_def Stop_def NewServer_def make_chan_def close_chan_def)

end
